theory Spec2Isabelle
  imports Complex_Main
begin

section \<open>JavaScript strings and arrays\<close>

text \<open>
  Strings are character lists. A character is one code unit of the Latin-1 range, which
  is where \<open>String.prototype.trim\<close> and \<open>toLowerCase\<close> are modelled: the white space
  and line terminators of that range are TAB, LF, VT, FF, CR, SPACE and NBSP, and the
  upper-case letters are A-Z and the accented capitals 0xC0-0xDE without the
  multiplication sign 0xD7.
\<close>

definition isWhiteSpace :: "char \<Rightarrow> bool" where
  "isWhiteSpace c \<longleftrightarrow>
     c \<in> {CHR 0x09, CHR 0x0A, CHR 0x0B, CHR 0x0C, CHR 0x0D, CHR 0x20, CHR 0xA0}"

definition trimStart :: "string \<Rightarrow> string" where
  "trimStart s = dropWhile isWhiteSpace s"

definition trimEnd :: "string \<Rightarrow> string" where
  "trimEnd s = rev (dropWhile isWhiteSpace (rev s))"

definition trim :: "string \<Rightarrow> string" where
  "trim s = trimStart (trimEnd s)"

definition toLowerChar :: "char \<Rightarrow> char" where
  "toLowerChar c =
     (let n = (of_char c :: nat)
      in if (65 \<le> n \<and> n \<le> 90) \<or> (192 \<le> n \<and> n \<le> 222 \<and> n \<noteq> 215)
         then char_of (n + 32) else c)"

definition toLowerCase :: "string \<Rightarrow> string" where
  "toLowerCase s = map toLowerChar s"

text \<open>\<open>Boolean(s)\<close> on a string: the empty string is the only falsy one.\<close>

definition truthy :: "string \<Rightarrow> bool" where
  "truthy s \<longleftrightarrow> s \<noteq> []"

text \<open>\<open>arr.join(sep)\<close>.\<close>

fun joinWith :: "string \<Rightarrow> string list \<Rightarrow> string" where
  "joinWith sep [] = []"
| "joinWith sep [x] = x"
| "joinWith sep (x # y # ys) = x @ sep @ joinWith sep (y # ys)"

text \<open>
  \<open>s.split(c)\<close> for a one-character separator. The result is never empty:
  \<open>"".split(",")\<close> is \<open>[""]\<close>.
\<close>

fun splitOn :: "char \<Rightarrow> string \<Rightarrow> string list" where
  "splitOn c [] = [[]]"
| "splitOn c (x # xs) =
     (if x = c then [] # splitOn c xs
      else (case splitOn c xs of
              [] \<Rightarrow> [[x]]
            | y # ys \<Rightarrow> (x # y) # ys))"

text \<open>
  \<open>Array.from(new Set(arr))\<close>: a Set keeps its members in insertion order and ignores
  a value it already holds, so the array lists each value once, at its first position.
\<close>

definition setAdd :: "'a list \<Rightarrow> 'a \<Rightarrow> 'a list" where
  "setAdd members x = (if x \<in> set members then members else members @ [x])"

definition arrayFromSet :: "'a list \<Rightarrow> 'a list" where
  "arrayFromSet arr = foldl setAdd [] arr"

section \<open>Tag merging (upload route)\<close>

text \<open>
  \<^verbatim>\<open>
  function dedupLower(arr: string[]) {
    const seen = new Set<string>();
    const out: string[] = [];
    for (const t of arr) {
      const k = (t || "").trim().toLowerCase();
      if (!k) continue;
      if (!seen.has(k)) { seen.add(k); out.push((t || "").trim()); }
    }
    return out;
  }
  \<close>
  The loop threads \<open>seen\<close> and \<open>out\<close>.
\<close>

fun dedupLoop :: "string set \<Rightarrow> string list \<Rightarrow> string list \<Rightarrow> string list" where
  "dedupLoop seen out [] = out"
| "dedupLoop seen out (t # ts) =
     (let k = toLowerCase (trim t)
      in if \<not> truthy k then dedupLoop seen out ts
         else if k \<notin> seen then dedupLoop (insert k seen) (out @ [trim t]) ts
         else dedupLoop seen out ts)"

definition dedupLower :: "string list \<Rightarrow> string list" where
  "dedupLower arr = dedupLoop {} [] arr"

text \<open>
  \<^verbatim>\<open>
  const mergedTags = dedupLower([
    ...(ai.tags || []), ...(ai.vibe || []), ...(ai.objects || []),
    ...(ai.must_keep || []), ...(tags ? String(tags).split(",") : []),
  ]).slice(0, 40);
  \<close>
  The four lists of the descriptor are given as lists (a missing one as \<open>[]\<close>), the
  request's \<open>tags\<close> as a string.
\<close>

definition userTags :: "string \<Rightarrow> string list" where
  "userTags tags = (if truthy tags then splitOn CHR '','' tags else [])"

definition mergedTags ::
  "string list \<Rightarrow> string list \<Rightarrow> string list \<Rightarrow> string list \<Rightarrow> string \<Rightarrow> string list" where
  "mergedTags ai_tags ai_vibe ai_objects ai_must_keep tags =
     take 40 (dedupLower (ai_tags @ ai_vibe @ ai_objects @ ai_must_keep @ userTags tags))"

text \<open>
  The Tag Merger as the specification words it: concatenate, trim, drop empties,
  deduplicate by lower-cased value keeping the first-seen form, truncate to the cap.
\<close>

fun firstByLower :: "string list \<Rightarrow> string list" where
  "firstByLower [] = []"
| "firstByLower (x # xs) =
     x # firstByLower (filter (\<lambda>y. toLowerCase y \<noteq> toLowerCase x) xs)"

definition mergeTags_spec :: "string list list \<Rightarrow> nat \<Rightarrow> string list" where
  "mergeTags_spec tagLists cap =
     take cap (firstByLower (filter truthy (map trim (concat tagLists))))"

section \<open>Anchors (remix routes)\<close>

text \<open>
  The remix route exists in two versions, both in the source. The current one:
  \<^verbatim>\<open>
  function uniq(arr: string[]) {
    return Array.from(new Set(arr.map((s) => s.trim()).filter(Boolean)));
  }
  \<close>
  The legacy one filters before it trims, so a white-space-only entry survives as the
  empty string:
  \<^verbatim>\<open>
  const uniq = (arr: string[]) =>
    Array.from(new Set(arr.filter(Boolean).map((s) => String(s).trim())));
  \<close>
\<close>

definition uniq :: "string list \<Rightarrow> string list" where
  "uniq arr = arrayFromSet (filter truthy (map trim arr))"

definition uniq_legacy :: "string list \<Rightarrow> string list" where
  "uniq_legacy arr = arrayFromSet (map trim (filter truthy arr))"

text \<open>
  \<open>ParentDescriptor\<close>: every field is optional. A scalar field is \<open>None\<close> when it is
  missing; a list field is \<open>None\<close> when it is missing or not an array. The field
  \<open>d.subject\<close> of the source is \<open>d_subject\<close> here, and so on.
\<close>

record ParentDescriptor =
  d_title :: "string option"
  d_description :: "string option"
  d_subject :: "string option"
  d_setting :: "string option"
  d_medium :: "string option"
  d_realism :: "string option"
  d_lighting :: "string option"
  d_palette :: "string option"
  d_composition :: "string option"
  d_style :: "string option"
  d_vibe :: "string list option"
  d_objects :: "string list option"
  d_people :: "string list option"
  d_trend :: "string option"
  d_feeling :: "string option"
  d_must_keep :: "string list option"

text \<open>\<open>Array.isArray(d?.f) ? d!.f! : []\<close>\<close>

definition arrayField ::
  "ParentDescriptor option \<Rightarrow> (ParentDescriptor \<Rightarrow> string list option) \<Rightarrow> string list" where
  "arrayField d f =
     (case d of
        None \<Rightarrow> []
      | Some x \<Rightarrow> (case f x of None \<Rightarrow> [] | Some arr \<Rightarrow> arr))"

text \<open>\<open>...(arr[0] ? [arr[0]] : [])\<close>: nothing for an empty array or an empty first entry.\<close>

definition firstIfTruthy :: "string list \<Rightarrow> string list" where
  "firstIfTruthy arr =
     (case arr of [] \<Rightarrow> [] | v # _ \<Rightarrow> (if truthy v then [v] else []))"

text \<open>
  \<^verbatim>\<open>
  function buildAnchors(d: ParentDescriptor | undefined) {
    const objects = Array.isArray(d?.objects) ? d!.objects! : [];
    const vibe = Array.isArray(d?.vibe) ? d!.vibe! : [];
    const people = Array.isArray(d?.people) ? d!.people! : [];
    const mustKeep = Array.isArray(d?.must_keep) ? d!.must_keep! : [];
    const anchors = uniq([
      ...mustKeep, ...objects.slice(0, 5),
      ...(vibe[0] ? [vibe[0]] : []), ...(people[0] ? [people[0]] : []),
    ]).slice(0, 10);
    return anchors;
  }
  \<close>
  The legacy version is the same text over the legacy \<open>uniq\<close>.
\<close>

definition anchorCandidates :: "ParentDescriptor option \<Rightarrow> string list" where
  "anchorCandidates d =
     (let objects = arrayField d d_objects;
          vibe = arrayField d d_vibe;
          people = arrayField d d_people;
          mustKeep = arrayField d d_must_keep
      in mustKeep @ take 5 objects @ firstIfTruthy vibe @ firstIfTruthy people)"

definition buildAnchors :: "ParentDescriptor option \<Rightarrow> string list" where
  "buildAnchors d = take 10 (uniq (anchorCandidates d))"

definition buildAnchors_legacy :: "ParentDescriptor option \<Rightarrow> string list" where
  "buildAnchors_legacy d = take 10 (uniq_legacy (anchorCandidates d))"

text \<open>
  The Anchor Extractor as the specification words it, step by step, over the four list
  fields of a descriptor: (1) all of mustKeep; (2) the entries among the first five of
  objects that are not already present; (3) and (4) the first entry of vibe, then of
  people, if there is one and it is not already present; (5) deduplication by trimmed
  value, case-sensitive, first-seen order; (6) at most ten entries.
\<close>

fun firstSeen :: "'a list \<Rightarrow> 'a list" where
  "firstSeen [] = []"
| "firstSeen (x # xs) = x # firstSeen (filter (\<lambda>y. y \<noteq> x) xs)"

definition appendAbsent :: "string list \<Rightarrow> string list \<Rightarrow> string list" where
  "appendAbsent acc new = acc @ filter (\<lambda>y. y \<notin> set acc) new"

definition extractAnchors_spec ::
  "string list \<Rightarrow> string list \<Rightarrow> string list \<Rightarrow> string list \<Rightarrow> string list" where
  "extractAnchors_spec mustKeep objects vibe people =
     (let s1 = mustKeep;
          s2 = appendAbsent s1 (take 5 objects);
          s3 = appendAbsent s2 (take 1 vibe);
          s4 = appendAbsent s3 (take 1 people);
          s5 = firstSeen (map trim s4)
      in take 10 s5)"

text \<open>
  The invariant of the specification's ImageDescriptor on a list field: no entry is
  empty or white space only.
\<close>

definition noBlank :: "string list \<Rightarrow> bool" where
  "noBlank arr \<longleftrightarrow> list_all (\<lambda>s. truthy (trim s)) arr"

section \<open>Field resolution and list coercion (recent route)\<close>

text \<open>
  A raw metadata value is a string, an array of strings or \<open>null\<close>; a container maps
  field names to raw values, and a name it does not map reads as \<open>undefined\<close>.
  \<open>String(v)\<close> of an array joins its elements with a comma.
\<close>

datatype RawValue = Null | Str string | Arr "string list"

type_synonym Container = "string \<rightharpoonup> RawValue"

fun toString :: "RawValue \<Rightarrow> string" where
  "toString Null = ''null''"
| "toString (Str s) = s"
| "toString (Arr xs) = joinWith '','' xs"

text \<open>
  \<^verbatim>\<open>
  const pick = (obj: any, ...keys: string[]) => {
    for (const k of keys) {
      const v = obj?.[k];
      if (v !== undefined && v !== null && String(v).trim() !== "") return v;
    }
    return null;
  };
  \<close>
\<close>

fun pick :: "Container \<Rightarrow> string list \<Rightarrow> RawValue" where
  "pick obj [] = Null"
| "pick obj (k # keys) =
     (case obj k of
        None \<Rightarrow> pick obj keys
      | Some v \<Rightarrow>
          (if v \<noteq> Null \<and> trim (toString v) \<noteq> [] then v else pick obj keys))"

text \<open>
  The route resolves a field over its containers with a chain
  \<open>pick(cx, ...) ?? pick(md, ...) ?? null\<close>: the first lookup that is not \<open>null\<close>.
\<close>

fun resolve :: "(Container \<times> string list) list \<Rightarrow> RawValue" where
  "resolve [] = Null"
| "resolve ((obj, keys) # rest) =
     (case pick obj keys of Null \<Rightarrow> resolve rest | v \<Rightarrow> v)"

text \<open>
  \<^verbatim>\<open>
  const csvToArr = (v: any) => {
    if (!v) return [];
    if (Array.isArray(v))
      return v.map(String).map((s) => s.trim()).filter(Boolean);
    const s = String(v).trim();
    if (!s) return [];
    if ((s.startsWith("[") && s.endsWith("]")) ||
        (s.startsWith("{") && s.endsWith("}"))) {
      try {
        const parsed = JSON.parse(s);
        if (Array.isArray(parsed))
          return parsed.map(String).map((x) => x.trim()).filter(Boolean);
      } catch {}
    }
    return s.split(",").map((x) => x.trim()).filter(Boolean);
  };
  \<close>
  \<open>JSON.parse\<close> belongs to the language, not to the repository, and is a parameter:
  \<open>parseArray s\<close> is \<open>Some xs\<close> when \<open>JSON.parse(s)\<close> returns an array, \<open>xs\<close> being
  its elements under \<open>String\<close>, and \<open>None\<close> when it throws or returns something else.
\<close>

definition falsy :: "RawValue \<Rightarrow> bool" where
  "falsy v \<longleftrightarrow> v = Null \<or> v = Str []"

definition bracketed :: "string \<Rightarrow> bool" where
  "bracketed s \<longleftrightarrow>
     s \<noteq> [] \<and> ((hd s = CHR ''['' \<and> last s = CHR '']'') \<or> (hd s = CHR ''{'' \<and> last s = CHR ''}''))"

definition trimmedEntries :: "string list \<Rightarrow> string list" where
  "trimmedEntries xs = filter truthy (map trim xs)"

definition csvToArr :: "(string \<Rightarrow> string list option) \<Rightarrow> RawValue \<Rightarrow> string list" where
  "csvToArr parseArray v =
     (if falsy v then []
      else (case v of
              Arr xs \<Rightarrow> trimmedEntries xs
            | _ \<Rightarrow>
               (let s = trim (toString v)
                in if \<not> truthy s then []
                   else (case (if bracketed s then parseArray s else None) of
                           Some parsed \<Rightarrow> trimmedEntries parsed
                         | None \<Rightarrow> trimmedEntries (splitOn CHR '','' s)))))"

text \<open>A parser that accepts nothing, for inputs on which \<open>JSON.parse\<close> is not reached.\<close>

definition parseNothing :: "string \<Rightarrow> string list option" where
  "parseNothing s = None"

section \<open>Remix plan and prompt rendering\<close>

text \<open>
  \<open>remixStrength\<close> is a JavaScript number. The routes only clamp it and compare it with
  decimal literals. Doubles are ordered as the rationals they denote, and no double lies
  strictly between a decimal literal and the double nearest to it, so on doubles these
  comparisons are the comparisons with the literal's exact value: the strength is a
  \<open>rat\<close>. NaN is left out.
\<close>

definition clampStrength :: "rat \<Rightarrow> rat" where
  "clampStrength remixStrength = max 0 (min 1 remixStrength)"

text \<open>
  The current route:
  \<^verbatim>\<open>
  const remixLine =
    strength >= 0.8 ? "Highly remixed reinterpretation with bold recomposition and surprising fusions."
    : strength >= 0.5 ? "Creative remix reinterpretation; allow recomposition, scale shifts, and fused elements."
    : "Light remix; small but noticeable rearrangements and stylized integrations.";
  \<close>
  The legacy route:
  \<^verbatim>\<open>
  const remixLine =
    strength >= 0.85 ? "Highly remixed reinterpretation, bold recomposition, surprising fusions."
    : strength >= 0.55 ? "Creative remix reinterpretation, allow recomposition and scale shifts."
    : "Light remix, subtle rearrangements and stylized integrations.";
  \<close>
\<close>

definition remixLine :: "rat \<Rightarrow> string" where
  "remixLine strength =
     (if strength \<ge> 0.8
      then ''Highly remixed reinterpretation with bold recomposition and surprising fusions.''
      else if strength \<ge> 0.5
      then ''Creative remix reinterpretation; allow recomposition, scale shifts, and fused elements.''
      else ''Light remix; small but noticeable rearrangements and stylized integrations.'')"

definition remixLine_legacy :: "rat \<Rightarrow> string" where
  "remixLine_legacy strength =
     (if strength \<ge> 0.85
      then ''Highly remixed reinterpretation, bold recomposition, surprising fusions.''
      else if strength \<ge> 0.55
      then ''Creative remix reinterpretation, allow recomposition and scale shifts.''
      else ''Light remix, subtle rearrangements and stylized integrations.'')"

text \<open>
  The plan as \<open>JSON.parse\<close> returns it: an object whose fields may be missing
  (\<open>None\<close>). \<open>plan.scene\<close> of the source is \<open>plan_scene\<close>.
\<close>

record Plan =
  plan_scene :: "string option"
  plan_subject :: "string option"
  plan_setting :: "string option"
  plan_composition :: "string option"
  plan_medium :: "string option"
  plan_realism :: "string option"
  plan_lighting :: "string option"
  plan_palette :: "string option"
  plan_style_notes :: "string option"
  plan_must_include :: "string list option"
  plan_avoid :: "string list option"
  plan_remix_directive :: "string option"


text \<open>A template literal prints a missing value as \<open>undefined\<close>.\<close>

definition tpl :: "string option \<Rightarrow> string" where
  "tpl v = (case v of None \<Rightarrow> ''undefined'' | Some s \<Rightarrow> s)"

text \<open>\<open>v || ""\<close>, and \<open>v ? v : ""\<close>, on an optional string.\<close>

definition orEmpty :: "string option \<Rightarrow> string" where
  "orEmpty v = (case v of None \<Rightarrow> [] | Some s \<Rightarrow> s)"

datatype JsError = TypeError | SyntaxError | FetchError | ProviderError

text \<open>
  The "must include" and "avoid" clauses of the current route:
  \<^verbatim>\<open>
  `Must include (integrated naturally): ${uniq(plan.must_include).join(", ")}.`,
  plan.avoid?.length ? `Avoid: ${uniq(plan.avoid).join(", ")}.` : "",
  \<close>
  \<open>uniq\<close> calls \<open>arr.map\<close>, which throws a TypeError on a missing \<open>must_include\<close>.
\<close>

definition mustIncludeClause :: "string list \<Rightarrow> string" where
  "mustIncludeClause must_include =
     ''Must include (integrated naturally): '' @ joinWith '', '' (uniq must_include) @ ''.''"

definition avoidClause :: "string list option \<Rightarrow> string" where
  "avoidClause avoid =
     (case avoid of
        None \<Rightarrow> []
      | Some items \<Rightarrow> (if items \<noteq> [] then ''Avoid: '' @ joinWith '', '' (uniq items) @ ''.'' else []))"

definition styleClause :: "string option \<Rightarrow> string" where
  "styleClause style_notes =
     (if truthy (orEmpty style_notes) then ''Style: '' @ orEmpty style_notes @ ''.'' else [])"

text \<open>
  \<^verbatim>\<open>
  const finalPrompt = [
    `${plan.scene}. ${plan.subject}. ${plan.setting}.`,
    remixLine,
    plan.remix_directive ? plan.remix_directive : "",
    `Composition: ${plan.composition}.`,
    `Medium: ${plan.medium}, realism: ${plan.realism}.`,
    `Lighting: ${plan.lighting}. Palette: ${plan.palette}.`,
    plan.style_notes ? `Style: ${plan.style_notes}.` : "",
    `Must include (integrated naturally): ${uniq(plan.must_include).join(", ")}.`,
    plan.avoid?.length ? `Avoid: ${uniq(plan.avoid).join(", ")}.` : "",
    `No text, no watermark, no UI, no logos, no signatures.`,
    `Square image.`,
  ].filter(Boolean).join(" ");
  \<close>
\<close>

definition finalPrompt :: "Plan \<Rightarrow> rat \<Rightarrow> JsError + string" where
  "finalPrompt plan strength =
     (case plan_must_include plan of
        None \<Rightarrow> Inl TypeError
      | Some must_include \<Rightarrow>
          Inr (joinWith '' '' (filter truthy
            [tpl (plan_scene plan) @ ''. '' @ tpl (plan_subject plan) @ ''. '' @
               tpl (plan_setting plan) @ ''.'',
             remixLine strength,
             orEmpty (plan_remix_directive plan),
             ''Composition: '' @ tpl (plan_composition plan) @ ''.'',
             ''Medium: '' @ tpl (plan_medium plan) @ '', realism: '' @ tpl (plan_realism plan) @ ''.'',
             ''Lighting: '' @ tpl (plan_lighting plan) @ ''. Palette: '' @
               tpl (plan_palette plan) @ ''.'',
             styleClause (plan_style_notes plan),
             mustIncludeClause must_include,
             avoidClause (plan_avoid plan),
             ''No text, no watermark, no UI, no logos, no signatures.'',
             ''Square image.''])))"

text \<open>
  The legacy route renders \<open>uniq(plan.must_include || [])\<close> under "Must include: ",
  over its own \<open>uniq\<close>, and ends with one fixed sentence; nothing in it throws.
\<close>

definition mustIncludeClause_legacy :: "string list option \<Rightarrow> string" where
  "mustIncludeClause_legacy must_include =
     ''Must include: '' @
     joinWith '', '' (uniq_legacy (case must_include of None \<Rightarrow> [] | Some items \<Rightarrow> items)) @ ''.''"

definition avoidClause_legacy :: "string list option \<Rightarrow> string" where
  "avoidClause_legacy avoid =
     (case avoid of
        None \<Rightarrow> []
      | Some items \<Rightarrow>
          (if items \<noteq> [] then ''Avoid: '' @ joinWith '', '' (uniq_legacy items) @ ''.'' else []))"

definition finalPrompt_legacy :: "Plan \<Rightarrow> rat \<Rightarrow> string" where
  "finalPrompt_legacy plan strength =
     joinWith '' '' (filter truthy
       [tpl (plan_scene plan) @ ''. '' @ tpl (plan_subject plan) @ ''. '' @
          tpl (plan_setting plan) @ ''.'',
        remixLine_legacy strength,
        orEmpty (plan_remix_directive plan),
        ''Composition: '' @ tpl (plan_composition plan) @ ''.'',
        ''Medium: '' @ tpl (plan_medium plan) @ '', realism: '' @ tpl (plan_realism plan) @ ''.'',
        ''Lighting: '' @ tpl (plan_lighting plan) @ ''. Palette: '' @
          tpl (plan_palette plan) @ ''.'',
        styleClause (plan_style_notes plan),
        mustIncludeClause_legacy (plan_must_include plan),
        avoidClause_legacy (plan_avoid plan),
        ''Square image. No text, no watermark, no UI, no logos, no signatures.''])"

section \<open>The remix handlers\<close>

record RemixParent =
  p_url :: string
  p_descriptor :: "ParentDescriptor option"

text \<open>
  The request body after destructuring, defaults applied. \<open>parents\<close> is \<open>None\<close> when
  the body gives something that is not an array. The legacy route reads four more
  fields (\<open>styles\<close> and \<open>people\<close> are read and never used) and no \<open>anchorPerParent\<close>.
\<close>

record RemixBody =
  parents :: "RemixParent list option"
  adjectives :: string
  communities :: "string list"
  trends :: "string list"
  extraPrompt :: string
  imageSize :: string
  remixStrength :: rat

record RemixRequest = RemixBody +
  anchorPerParent :: string

record LegacyRequest = RemixBody +
  descriptions :: "string list"
  styles :: "string list"
  people :: "string list"
  parentIds :: "string list"

definition emptyDescriptor :: ParentDescriptor where
  "emptyDescriptor =
     \<lparr>d_title = None, d_description = None, d_subject = None, d_setting = None,
      d_medium = None, d_realism = None, d_lighting = None, d_palette = None,
      d_composition = None, d_style = None, d_vibe = None, d_objects = None,
      d_people = None, d_trend = None, d_feeling = None, d_must_keep = None\<rparr>"

text \<open>\<open>const d = p.descriptor || {}\<close>\<close>

definition descriptorOf :: "RemixParent \<Rightarrow> ParentDescriptor" where
  "descriptorOf p = (case p_descriptor p of None \<Rightarrow> emptyDescriptor | Some d \<Rightarrow> d)"

text \<open>
  \<^verbatim>\<open>
  const parentSummaries = parents.slice(0, 16).map((p, i) => {
    const d = p.descriptor || {};
    const anchors = buildAnchors(d);
    return { index: i + 1, url: p.url, subject: d.subject || "", ...,
             vibe: Array.isArray(d.vibe) ? d.vibe : [], ..., anchors };
  });
  \<close>
\<close>

record ParentSummary =
  s_index :: nat
  s_url :: string
  s_subject :: string
  s_setting :: string
  s_medium :: string
  s_realism :: string
  s_lighting :: string
  s_palette :: string
  s_composition :: string
  s_vibe :: "string list"
  s_people :: "string list"
  s_objects :: "string list"
  s_trend :: string
  s_feeling :: string
  s_style :: string
  s_anchors :: "string list"

definition summarize :: "nat \<times> RemixParent \<Rightarrow> ParentSummary" where
  "summarize ip =
     (let i = fst ip; p = snd ip; d = descriptorOf p; anchors = buildAnchors (Some d)
      in \<lparr>s_index = i + 1, s_url = p_url p,
          s_subject = orEmpty (d_subject d), s_setting = orEmpty (d_setting d),
          s_medium = orEmpty (d_medium d), s_realism = orEmpty (d_realism d),
          s_lighting = orEmpty (d_lighting d), s_palette = orEmpty (d_palette d),
          s_composition = orEmpty (d_composition d),
          s_vibe = arrayField (Some d) d_vibe, s_people = arrayField (Some d) d_people,
          s_objects = arrayField (Some d) d_objects,
          s_trend = orEmpty (d_trend d), s_feeling = orEmpty (d_feeling d),
          s_style = orEmpty (d_style d), s_anchors = anchors\<rparr>)"

definition parentSummaries :: "RemixParent list \<Rightarrow> ParentSummary list" where
  "parentSummaries ps = map summarize (enumerate 0 (take 16 ps))"

text \<open>
  The legacy route:
  \<^verbatim>\<open>
  const parentSummaries = normalizedParents.slice(0, 10).map((p, i) => {
    const d = p.descriptor || {};
    return { index: i + 1, description: d.description || "", subject: d.subject || "",
             ..., anchors: buildAnchors(d) };
  });
  \<close>
\<close>

record LegacySummary =
  ls_index :: nat
  ls_description :: string
  ls_subject :: string
  ls_setting :: string
  ls_style :: string
  ls_medium :: string
  ls_realism :: string
  ls_lighting :: string
  ls_palette :: string
  ls_composition :: string
  ls_trend :: string
  ls_feeling :: string
  ls_anchors :: "string list"

definition summarize_legacy :: "nat \<times> RemixParent \<Rightarrow> LegacySummary" where
  "summarize_legacy ip =
     (let i = fst ip; p = snd ip; d = descriptorOf p
      in \<lparr>ls_index = i + 1, ls_description = orEmpty (d_description d),
          ls_subject = orEmpty (d_subject d), ls_setting = orEmpty (d_setting d),
          ls_style = orEmpty (d_style d), ls_medium = orEmpty (d_medium d),
          ls_realism = orEmpty (d_realism d), ls_lighting = orEmpty (d_lighting d),
          ls_palette = orEmpty (d_palette d), ls_composition = orEmpty (d_composition d),
          ls_trend = orEmpty (d_trend d), ls_feeling = orEmpty (d_feeling d),
          ls_anchors = buildAnchors_legacy (Some d)\<rparr>)"

definition parentSummaries_legacy :: "RemixParent list \<Rightarrow> LegacySummary list" where
  "parentSummaries_legacy ps = map summarize_legacy (enumerate 0 (take 10 ps))"

text \<open>
  \<^verbatim>\<open>
  const normalizedParents: RemixParent[] =
    Array.isArray(parents) && parents.length >= 2
      ? parents
      : (descriptions || []).map((d, i) => ({
          url: parentIds?.[i] || "",
          descriptor: { description: d },
        }));
  \<close>
\<close>

definition fabricate :: "string list \<Rightarrow> nat \<times> string \<Rightarrow> RemixParent" where
  "fabricate ids idesc =
     \<lparr>p_url = (if fst idesc < length ids then ids ! fst idesc else []),
      p_descriptor = Some (emptyDescriptor\<lparr>d_description := Some (snd idesc)\<rparr>)\<rparr>"

definition normalizedParents :: "LegacyRequest \<Rightarrow> RemixParent list" where
  "normalizedParents req =
     (case parents req of
        Some ps \<Rightarrow>
          (if length ps \<ge> 2 then ps
           else map (fabricate (parentIds req)) (enumerate 0 (descriptions req)))
      | None \<Rightarrow> map (fabricate (parentIds req)) (enumerate 0 (descriptions req)))"

text \<open>
  The values the plan request is built from: \<open>mergePrompt\<close> is a fixed text around
  them, the summaries under \<open>JSON.stringify\<close>.
\<close>

record MergePrompt =
  mp_anchorPerParent :: string
  mp_strength :: rat
  mp_adjectives :: string
  mp_communities :: "string list"
  mp_trends :: "string list"
  mp_extraPrompt :: string
  mp_parentSummaries :: "ParentSummary list"

record LegacyMergePrompt =
  lmp_strength :: rat
  lmp_adjectives :: string
  lmp_communities :: "string list"
  lmp_trends :: "string list"
  lmp_extraPrompt :: string
  lmp_parentSummaries :: "LegacySummary list"

text \<open>
  The external collaborators, as functions of what the handler sends them. \<open>None\<close> is
  a call that throws (or, for a fetch, a response that is not ok).
  \<^item> \<open>fetchUrl url\<close>: the content type, if the response has one, and the bytes;
  \<^item> \<open>chatCompletion p\<close>: the content of the first choice, if any;
  \<^item> \<open>jsonParse s\<close>: the plan \<open>JSON.parse(s)\<close> returns, \<open>None\<close> for a SyntaxError;
  \<^item> \<open>imagesEdit prompt size files\<close>: \<open>data[0].b64_json\<close> of the response, if any;
  \<^item> \<open>imagesGenerate prompt size\<close>: \<open>data[0].url\<close> of the response, if any;
  \<^item> \<open>cloudinaryUpload b64\<close>: the \<open>secure_url\<close> of the stored asset.
\<close>

record File =
  f_number :: nat
  f_ext :: string
  f_type :: string
  f_bytes :: string

record World =
  fetchUrl :: "string \<Rightarrow> (string option \<times> string) option"
  chatCompletion :: "MergePrompt \<Rightarrow> string option option"
  jsonParse :: "string \<Rightarrow> Plan option"
  imagesEdit :: "string \<Rightarrow> string \<Rightarrow> File list \<Rightarrow> string option option"
  cloudinaryUpload :: "string \<Rightarrow> string option"

record LegacyWorld =
  l_chatCompletion :: "LegacyMergePrompt \<Rightarrow> string option option"
  l_jsonParse :: "string \<Rightarrow> Plan option"
  imagesGenerate :: "string \<Rightarrow> string \<Rightarrow> string option option"

datatype ExternalCall =
    Fetch string
  | ChatCompletion
  | ImagesEdit string
  | ImagesGenerate string
  | CloudinaryUpload

text \<open>\<open>haystack.includes(needle)\<close>\<close>

fun stringIncludes :: "string \<Rightarrow> string \<Rightarrow> bool" where
  "stringIncludes [] needle = (needle = [])"
| "stringIncludes (c # cs) needle =
     (take (length needle) (c # cs) = needle \<or> stringIncludes cs needle)"

text \<open>
  \<^verbatim>\<open>
  async function urlToFile(url: string, fallbackName: string): Promise<File> {
    const res = await fetch(url);
    if (!res.ok) throw new Error(...);
    const contentType = res.headers.get("content-type") || "image/jpeg";
    const ext = contentType.includes("png") ? "png"
      : contentType.includes("webp") ? "webp" : "jpg";
    ...
    return new File([buf], `${fallbackName}.${ext}`, { type: contentType });
  }
  \<close>
  The fallback name is \<open>parent-n\<close>; the file keeps \<open>n\<close>.
\<close>

definition urlToFile :: "World \<Rightarrow> string \<Rightarrow> nat \<Rightarrow> File option" where
  "urlToFile w url n =
     (case fetchUrl w url of
        None \<Rightarrow> None
      | Some (header, bytes) \<Rightarrow>
          (let contentType = (if truthy (orEmpty header) then orEmpty header else ''image/jpeg'');
               ext = (if stringIncludes contentType ''png'' then ''png''
                      else if stringIncludes contentType ''webp'' then ''webp'' else ''jpg'')
           in Some \<lparr>f_number = n, f_ext = ext, f_type = contentType, f_bytes = bytes\<rparr>))"

text \<open>The responses: a status with an error message, or 200 with a body.\<close>

datatype 'a Response = Status400 string | Status500 string | Status200 'a

record RemixResult =
  r_remixedPrompt :: string
  r_plan :: Plan
  r_remixStrength :: rat
  r_imageUrl :: string
  r_parentUrls :: "string list"

record LegacyResult =
  lr_remixedPrompt :: string
  lr_plan :: Plan
  lr_imageUrl :: "string option"
  lr_parentUrls :: "string list"

text \<open>
  Pieces of the handlers that have a name in the source: \<open>imageFiles\<close> (the downloads
  under \<open>Promise.all\<close>, which fails when one of them does), \<open>mergePrompt\<close>, and
  \<open>planRaw\<close>, which is \<open>content ?? "{}"\<close>.
\<close>

definition imageFiles :: "World \<Rightarrow> RemixParent list \<Rightarrow> File list option" where
  "imageFiles w ps =
     those (map (\<lambda>ip. urlToFile w (p_url (snd ip)) (fst ip + 1)) (enumerate 0 (take 16 ps)))"

definition mergePrompt :: "RemixRequest \<Rightarrow> RemixParent list \<Rightarrow> MergePrompt" where
  "mergePrompt req ps =
     \<lparr>mp_anchorPerParent = anchorPerParent req,
      mp_strength = clampStrength (remixStrength req),
      mp_adjectives = adjectives req, mp_communities = communities req,
      mp_trends = trends req, mp_extraPrompt = extraPrompt req,
      mp_parentSummaries = parentSummaries ps\<rparr>"

definition mergePrompt_legacy :: "LegacyRequest \<Rightarrow> LegacyMergePrompt" where
  "mergePrompt_legacy req =
     \<lparr>lmp_strength = clampStrength (remixStrength req), lmp_adjectives = adjectives req,
      lmp_communities = communities req, lmp_trends = trends req,
      lmp_extraPrompt = extraPrompt req,
      lmp_parentSummaries = parentSummaries_legacy (normalizedParents req)\<rparr>"

definition planRaw :: "string option \<Rightarrow> string" where
  "planRaw content = (case content of None \<Rightarrow> ''{}'' | Some c \<Rightarrow> c)"

text \<open>
  The current \<open>POST\<close>, with the list of external calls it has started. Every exception
  ends in the \<open>catch\<close>, which answers 500 "Failed to remix images". \<open>Promise.all\<close>
  over the mapped \<open>urlToFile\<close> starts every fetch before any result is looked at.
\<close>

definition POST :: "World \<Rightarrow> RemixRequest \<Rightarrow> RemixResult Response \<times> ExternalCall list" where
  "POST w req =
     (case parents req of
        None \<Rightarrow> (Status400 ''Provide at least 2 parents.'', [])
      | Some ps \<Rightarrow>
        if length ps < 2 then (Status400 ''Provide at least 2 parents.'', [])
        else
          let strength = clampStrength (remixStrength req);
              calls1 = map (\<lambda>p. Fetch (p_url p)) (take 16 ps)
          in case imageFiles w ps of
               None \<Rightarrow> (Status500 ''Failed to remix images'', calls1)
             | Some files \<Rightarrow>
          let calls2 = calls1 @ [ChatCompletion]
          in case chatCompletion w (mergePrompt req ps) of
               None \<Rightarrow> (Status500 ''Failed to remix images'', calls2)
             | Some content \<Rightarrow>
          case jsonParse w (planRaw content) of
               None \<Rightarrow> (Status500 ''Failed to remix images'', calls2)
             | Some plan \<Rightarrow>
          case finalPrompt plan strength of
               Inl e \<Rightarrow> (Status500 ''Failed to remix images'', calls2)
             | Inr prompt \<Rightarrow>
          let calls3 = calls2 @ [ImagesEdit prompt];
              size = (if truthy (imageSize req) then imageSize req else ''1024x1024'')
          in case imagesEdit w prompt size files of
               None \<Rightarrow> (Status500 ''Failed to remix images'', calls3)
             | Some b64 \<Rightarrow>
          if \<not> truthy (orEmpty b64) then (Status500 ''No image returned.'', calls3)
          else
          let calls4 = calls3 @ [CloudinaryUpload]
          in case cloudinaryUpload w (orEmpty b64) of
               None \<Rightarrow> (Status500 ''Failed to remix images'', calls4)
             | Some remixUrl \<Rightarrow>
                 (Status200 \<lparr>r_remixedPrompt = prompt, r_plan = plan, r_remixStrength = strength,
                             r_imageUrl = remixUrl, r_parentUrls = map p_url ps\<rparr>, calls4))"

text \<open>
  The legacy \<open>POST\<close>: the check is on \<open>normalizedParents\<close>, the image comes from
  \<open>images.generate\<close>, and the \<open>catch\<close> answers 500 "Failed to generate content".
\<close>

definition POST_legacy ::
  "LegacyWorld \<Rightarrow> LegacyRequest \<Rightarrow> LegacyResult Response \<times> ExternalCall list" where
  "POST_legacy w req =
     (let strength = clampStrength (remixStrength req);
          nps = normalizedParents req
      in if length nps < 2 then (Status400 ''Provide at least 2 parents.'', [])
         else
           case l_chatCompletion w (mergePrompt_legacy req) of
                None \<Rightarrow> (Status500 ''Failed to generate content'', [ChatCompletion])
              | Some content \<Rightarrow>
           case l_jsonParse w (planRaw content) of
                None \<Rightarrow> (Status500 ''Failed to generate content'', [ChatCompletion])
              | Some plan \<Rightarrow>
           let prompt = finalPrompt_legacy plan strength;
               calls = [ChatCompletion, ImagesGenerate prompt]
           in case imagesGenerate w prompt (imageSize req) of
                None \<Rightarrow> (Status500 ''Failed to generate content'', calls)
              | Some url \<Rightarrow>
                  (Status200 \<lparr>lr_remixedPrompt = prompt, lr_plan = plan, lr_imageUrl = url,
                              lr_parentUrls = filter truthy (map p_url nps)\<rparr>, calls))"

text \<open>
  A request's \<open>parents\<close> has fewer than two entries: it is an array of length 0 or 1,
  or no array at all.
\<close>

definition fewerThanTwo :: "RemixParent list option \<Rightarrow> bool" where
  "fewerThanTwo ps = (case ps of None \<Rightarrow> True | Some xs \<Rightarrow> length xs < 2)"

section \<open>Sample inputs\<close>

text \<open>
  Concrete inputs on which the theorems below are evaluated. The descriptor is the one
  of the specification's example for the Anchor Extractor.
\<close>

definition lampDescriptor :: ParentDescriptor where
  "lampDescriptor =
     emptyDescriptor\<lparr>d_must_keep := Some [''lamp''],
                      d_objects := Some [''a'', ''b'', ''c'', ''d'', ''e'', ''f''],
                      d_vibe := Some [''moody''],
                      d_people := Some []\<rparr>"

definition parentA :: RemixParent where
  "parentA = \<lparr>p_url = ''https://img/a.png'', p_descriptor = Some lampDescriptor\<rparr>"

definition parentB :: RemixParent where
  "parentB = \<lparr>p_url = ''https://img/b.png'', p_descriptor = None\<rparr>"

text \<open>A plan with every field present and only two \<open>must_include\<close> entries.\<close>

definition shortPlan :: Plan where
  "shortPlan =
     \<lparr>plan_scene = Some ''A quiet room'', plan_subject = Some ''a lamp'',
      plan_setting = Some ''indoors'', plan_composition = Some ''centered'',
      plan_medium = Some ''photograph'', plan_realism = Some ''photorealistic'',
      plan_lighting = Some ''soft'', plan_palette = Some ''warm'',
      plan_style_notes = Some ''grainy'', plan_must_include = Some [''Cat'', ''cat''],
      plan_avoid = Some [], plan_remix_directive = Some ''Fuse the lamp and the cat.''\<rparr>"

text \<open>External services that all answer, the plan call with \<open>shortPlan\<close>.\<close>

definition answeringWorld :: World where
  "answeringWorld =
     \<lparr>fetchUrl = (\<lambda>url. Some (Some ''image/png'', ''bytes'')),
      chatCompletion = (\<lambda>p. Some (Some ''plan-json'')),
      jsonParse = (\<lambda>s. if s = ''plan-json'' then Some shortPlan else None),
      imagesEdit = (\<lambda>prompt size files. Some (Some ''b64'')),
      cloudinaryUpload = (\<lambda>b64. Some ''https://res/remix.png'')\<rparr>"

definition answeringWorld_legacy :: LegacyWorld where
  "answeringWorld_legacy =
     \<lparr>l_chatCompletion = (\<lambda>p. Some (Some ''plan-json'')),
      l_jsonParse = (\<lambda>s. if s = ''plan-json'' then Some shortPlan else None),
      imagesGenerate = (\<lambda>prompt size. Some (Some ''https://gen/remix.png''))\<rparr>"

definition requestOf :: "RemixParent list \<Rightarrow> RemixRequest" where
  "requestOf ps =
     \<lparr>parents = Some ps, adjectives = [], communities = [], trends = [], extraPrompt = [],
      imageSize = ''1024x1024'', remixStrength = 0.65, anchorPerParent = ''1-2''\<rparr>"

definition legacyRequestOf :: "RemixParent list \<Rightarrow> string list \<Rightarrow> LegacyRequest" where
  "legacyRequestOf ps ds =
     \<lparr>parents = Some ps, adjectives = [], communities = [], trends = [], extraPrompt = [],
      imageSize = ''1024x1024'', remixStrength = 0.7,
      descriptions = ds, styles = [], people = [], parentIds = [''id-1'']\<rparr>"

section \<open>Properties of the array helpers\<close>

lemma truthy_toLowerCase: "truthy (toLowerCase s) = truthy s"
  by (simp add: truthy_def toLowerCase_def)

lemma dedupLoop_firstByLower:
  "dedupLoop seen out ts =
     out @ firstByLower (filter (\<lambda>y. toLowerCase y \<notin> seen) (filter truthy (map trim ts)))"
proof (induction ts arbitrary: seen out)
  case Nil
  then show ?case by simp
next
  case (Cons t ts)
  let ?k = "toLowerCase (trim t)"
  let ?rest = "filter truthy (map trim ts)"
  have same: "filter (\<lambda>y. toLowerCase y \<noteq> ?k) (filter (\<lambda>y. toLowerCase y \<notin> seen) ?rest) =
              filter (\<lambda>y. toLowerCase y \<notin> insert ?k seen) ?rest"
    unfolding filter_filter by (rule filter_cong) auto
  show ?case
  proof (cases "truthy (trim t)")
    case False
    then show ?thesis by (simp add: Cons.IH Let_def truthy_toLowerCase)
  next
    case True
    show ?thesis
    proof (cases "?k \<in> seen")
      case True
      with \<open>truthy (trim t)\<close> show ?thesis
        by (simp add: Cons.IH Let_def truthy_toLowerCase)
    next
      case False
      have "dedupLoop seen out (t # ts) = dedupLoop (insert ?k seen) (out @ [trim t]) ts"
        using False \<open>truthy (trim t)\<close> by (simp add: Let_def truthy_toLowerCase)
      also have "\<dots> = (out @ [trim t]) @ firstByLower (filter (\<lambda>y. toLowerCase y \<notin> insert ?k seen) ?rest)"
        by (rule Cons.IH)
      also have "\<dots> = out @ firstByLower (filter (\<lambda>y. toLowerCase y \<notin> seen) (filter truthy (map trim (t # ts))))"
        using False \<open>truthy (trim t)\<close> same[symmetric] by simp
      finally show ?thesis .
    qed
  qed
qed

lemma dedupLower_firstByLower: "dedupLower arr = firstByLower (trimmedEntries arr)"
  by (simp add: dedupLower_def dedupLoop_firstByLower trimmedEntries_def)

lemma foldl_setAdd: "foldl setAdd acc xs = acc @ firstSeen (filter (\<lambda>y. y \<notin> set acc) xs)"
proof (induction xs arbitrary: acc)
  case Nil
  then show ?case by simp
next
  case (Cons x xs)
  show ?case
  proof (cases "x \<in> set acc")
    case True
    then have "setAdd acc x = acc" by (simp add: setAdd_def)
    then have "foldl setAdd acc (x # xs) = foldl setAdd acc xs" by simp
    with True show ?thesis by (simp add: Cons.IH)
  next
    case False
    have same: "filter (\<lambda>y. y \<noteq> x) (filter (\<lambda>y. y \<notin> set acc) xs) = filter (\<lambda>y. y \<notin> set (acc @ [x])) xs"
      unfolding filter_filter by (rule filter_cong) auto
    have "setAdd acc x = acc @ [x]"
      using False by (simp add: setAdd_def)
    then have "foldl setAdd acc (x # xs) = foldl setAdd (acc @ [x]) xs"
      by simp
    also have "\<dots> = (acc @ [x]) @ firstSeen (filter (\<lambda>y. y \<notin> set (acc @ [x])) xs)"
      by (rule Cons.IH)
    also have "\<dots> = acc @ firstSeen (filter (\<lambda>y. y \<notin> set acc) (x # xs))"
      using False same[symmetric] by simp
    finally show ?thesis .
  qed
qed

lemma foldl_setAdd_Nil: "foldl setAdd [] xs = firstSeen xs"
  by (simp add: foldl_setAdd)

lemma arrayFromSet_firstSeen: "arrayFromSet xs = firstSeen xs"
  by (simp add: arrayFromSet_def foldl_setAdd_Nil)

lemma set_firstSeen: "set (firstSeen xs) = set xs"
  by (induction xs rule: firstSeen.induct) auto

lemma firstSeen_append:
  "firstSeen (xs @ ys) = firstSeen xs @ firstSeen (filter (\<lambda>y. y \<notin> set xs) ys)"
proof -
  have "firstSeen (xs @ ys) = foldl setAdd [] (xs @ ys)"
    by (simp only: foldl_setAdd_Nil)
  also have "\<dots> = foldl setAdd (foldl setAdd [] xs) ys"
    by (rule foldl_append)
  also have "\<dots> = foldl setAdd (firstSeen xs) ys"
    by (simp only: foldl_setAdd_Nil)
  also have "\<dots> = firstSeen xs @ firstSeen (filter (\<lambda>y. y \<notin> set (firstSeen xs)) ys)"
    by (rule foldl_setAdd)
  finally show ?thesis by (simp add: set_firstSeen)
qed

lemma firstByLower_firstSeen:
  "inj_on toLowerCase (set ys) \<Longrightarrow> firstByLower ys = firstSeen ys"
proof (induction ys rule: firstSeen.induct)
  case 1
  then show ?case by simp
next
  case (2 x xs)
  have same: "filter (\<lambda>y. toLowerCase y \<noteq> toLowerCase x) xs = filter (\<lambda>y. y \<noteq> x) xs"
    using "2.prems" by (intro filter_cong) (auto simp: inj_on_def)
  have "inj_on toLowerCase (set (filter (\<lambda>y. y \<noteq> x) xs))"
    using "2.prems" by (auto simp: inj_on_def)
  then show ?case
    using "2.IH" same by simp
qed

section \<open>Trimmed strings\<close>

lemma dropWhile_keeps: "xs \<noteq> [] \<Longrightarrow> \<not> P (hd xs) \<Longrightarrow> dropWhile P xs = xs"
  by (cases xs) simp_all

lemma trim_Nil: "trim [] = []"
  by (simp add: trim_def trimStart_def trimEnd_def)

lemma trim_fixed:
  assumes "s \<noteq> []" and "\<not> isWhiteSpace (hd s)" and "\<not> isWhiteSpace (last s)"
  shows "trim s = s"
proof -
  have "rev s \<noteq> []" and "hd (rev s) = last s"
    using assms(1) by (simp_all add: hd_rev)
  then have "dropWhile isWhiteSpace (rev s) = rev s"
    using assms(3) by (intro dropWhile_keeps) simp_all
  then have e: "trimEnd s = s"
    by (simp add: trimEnd_def)
  have "dropWhile isWhiteSpace s = s"
    using assms by (intro dropWhile_keeps)
  with e show ?thesis
    by (simp add: trim_def trimStart_def)
qed

lemma trim_ends:
  assumes "trim s \<noteq> []"
  shows "\<not> isWhiteSpace (hd (trim s)) \<and> \<not> isWhiteSpace (last (trim s))"
proof -
  let ?e = "trimEnd s"
  have ne: "dropWhile isWhiteSpace ?e \<noteq> []"
    using assms by (simp add: trim_def trimStart_def)
  have h: "\<not> isWhiteSpace (hd (dropWhile isWhiteSpace ?e))"
    using ne by (rule hd_dropWhile)
  have "?e \<noteq> []"
    using ne by auto
  then have ene: "dropWhile isWhiteSpace (rev s) \<noteq> []"
    by (simp add: trimEnd_def)
  have le: "\<not> isWhiteSpace (last ?e)"
    using hd_dropWhile[OF ene] ene by (simp add: trimEnd_def last_rev)
  obtain k where k: "dropWhile isWhiteSpace ?e = drop k ?e"
    by (metis dropWhile_eq_drop)
  have "k < length ?e"
    using ne k by (cases "k < length ?e") simp_all
  then have "last (drop k ?e) = last ?e"
    by (rule last_drop)
  with le k h show ?thesis
    by (simp add: trim_def trimStart_def)
qed

lemma trim_idem: "trim (trim s) = trim s"
proof (cases "trim s = []")
  case True
  then show ?thesis by (simp add: trim_Nil)
next
  case False
  with trim_ends[OF False] show ?thesis
    by (intro trim_fixed) auto
qed

lemma trimmedEntries_trimmed:
  "e \<in> set (trimmedEntries xs) \<Longrightarrow> e \<noteq> [] \<and> trim e = e"
  by (auto simp: trimmedEntries_def truthy_def trim_idem)

lemma trimmedEntries_fixed:
  "\<forall>e \<in> set xs. e \<noteq> [] \<and> trim e = e \<Longrightarrow> trimmedEntries xs = xs"
  by (induction xs) (auto simp: trimmedEntries_def truthy_def)

section \<open>Splitting a joined list\<close>

lemma splitOn_not_Nil: "splitOn c s \<noteq> []"
  by (induction s) (auto split: list.splits)

lemma splitOn_no_separator: "c \<notin> set s \<Longrightarrow> splitOn c s = [s]"
  by (induction s) auto

lemma splitOn_append:
  "c \<notin> set x \<Longrightarrow> splitOn c (x @ c # rest) = x # splitOn c rest"
  by (induction x) (auto split: list.splits)

lemma splitOn_joinWith_sep:
  "sep = [c] \<Longrightarrow> xs \<noteq> [] \<Longrightarrow> \<forall>e \<in> set xs. c \<notin> set e \<Longrightarrow>
   splitOn c (joinWith sep xs) = xs"
proof (induction sep xs rule: joinWith.induct)
  case (1 sep)
  then show ?case by simp
next
  case (2 sep x)
  then show ?case by (simp add: splitOn_no_separator)
next
  case (3 sep x y ys)
  then show ?case by (simp add: splitOn_append)
qed

lemma splitOn_joinWith:
  "xs \<noteq> [] \<Longrightarrow> \<forall>e \<in> set xs. c \<notin> set e \<Longrightarrow> splitOn c (joinWith [c] xs) = xs"
  by (rule splitOn_joinWith_sep) simp_all

lemma joinWith_Nil_iff:
  "\<forall>e \<in> set xs. e \<noteq> [] \<Longrightarrow> joinWith sep xs = [] \<longleftrightarrow> xs = []"
  by (induction sep xs rule: joinWith.induct) auto

lemma hd_joinWith:
  "xs \<noteq> [] \<Longrightarrow> \<forall>e \<in> set xs. e \<noteq> [] \<Longrightarrow> hd (joinWith sep xs) = hd (hd xs)"
  by (induction sep xs rule: joinWith.induct) auto

lemma last_joinWith:
  "xs \<noteq> [] \<Longrightarrow> \<forall>e \<in> set xs. e \<noteq> [] \<Longrightarrow> last (joinWith sep xs) = last (last xs)"
proof (induction sep xs rule: joinWith.induct)
  case (3 sep x y ys)
  have "joinWith sep (y # ys) \<noteq> []"
    using 3 joinWith_Nil_iff[of "y # ys" sep] by auto
  with 3 show ?case by simp
qed simp_all

lemma trim_joinWith:
  assumes "xs \<noteq> []" and "\<forall>e \<in> set xs. e \<noteq> [] \<and> trim e = e"
  shows "trim (joinWith sep xs) = joinWith sep xs"
proof -
  have ne: "\<forall>e \<in> set xs. e \<noteq> []"
    using assms(2) by blast
  have first: "hd xs \<in> set xs" and final: "last xs \<in> set xs"
    using assms(1) by simp_all
  have "\<not> isWhiteSpace (hd (hd xs))"
    using trim_ends[of "hd xs"] assms(2) first by auto
  moreover have "\<not> isWhiteSpace (last (last xs))"
    using trim_ends[of "last xs"] assms(2) final by auto
  moreover have "joinWith sep xs \<noteq> []"
    using joinWith_Nil_iff[OF ne, of sep] assms(1) by simp
  ultimately show ?thesis
    using hd_joinWith[OF assms(1) ne, of sep] last_joinWith[OF assms(1) ne, of sep]
    by (intro trim_fixed) simp_all
qed

section \<open>Strength tiers\<close>

text \<open>
  C1, as stated, fails on the current route, whose tiers start at 0.5 and 0.8: strength
  0.549 yields its "creative remix" phrase, not its "light remix" phrase, and 0.8
  already yields "highly remixed".
\<close>

theorem remixLine_current_route_counterexample:
  "remixLine 0.549 =
     ''Creative remix reinterpretation; allow recomposition, scale shifts, and fused elements.''
   \<and> remixLine 0.549 \<noteq>
     ''Light remix; small but noticeable rearrangements and stylized integrations.''
   \<and> remixLine 0.8 =
     ''Highly remixed reinterpretation with bold recomposition and surprising fusions.''"
  by (simp add: remixLine_def)

text \<open>
  C1, amended. For every requested strength, clamped to [0, 1]: the legacy route chooses
  its phrase with boundaries at exactly 0.55 and 0.85 (0.549 light, 0.55 and 0.849
  creative, 0.85 highly remixed); the current route chooses its phrase with boundaries
  at exactly 0.5 and 0.8.
\<close>

theorem strength_tier_boundaries:
  fixes r :: rat
  defines "s \<equiv> clampStrength r"
  shows
  "0 \<le> s \<and> s \<le> 1
   \<and> (s < 0.55 \<longrightarrow> remixLine_legacy s =
         ''Light remix, subtle rearrangements and stylized integrations.'')
   \<and> (0.55 \<le> s \<and> s < 0.85 \<longrightarrow> remixLine_legacy s =
         ''Creative remix reinterpretation, allow recomposition and scale shifts.'')
   \<and> (0.85 \<le> s \<longrightarrow> remixLine_legacy s =
         ''Highly remixed reinterpretation, bold recomposition, surprising fusions.'')
   \<and> remixLine_legacy 0.549 = ''Light remix, subtle rearrangements and stylized integrations.''
   \<and> remixLine_legacy 0.55 =
         ''Creative remix reinterpretation, allow recomposition and scale shifts.''
   \<and> remixLine_legacy 0.849 =
         ''Creative remix reinterpretation, allow recomposition and scale shifts.''
   \<and> remixLine_legacy 0.85 =
         ''Highly remixed reinterpretation, bold recomposition, surprising fusions.''
   \<and> (s < 0.5 \<longrightarrow> remixLine s =
         ''Light remix; small but noticeable rearrangements and stylized integrations.'')
   \<and> (0.5 \<le> s \<and> s < 0.8 \<longrightarrow> remixLine s =
         ''Creative remix reinterpretation; allow recomposition, scale shifts, and fused elements.'')
   \<and> (0.8 \<le> s \<longrightarrow> remixLine s =
         ''Highly remixed reinterpretation with bold recomposition and surprising fusions.'')"
proof -
  have bounds: "0 \<le> s \<and> s \<le> 1"
    by (simp add: s_def clampStrength_def)
  show ?thesis
    using bounds by (simp add: remixLine_def remixLine_legacy_def)
qed

theorem strength_tier_boundaries_witness:
  "clampStrength 0.7 = 0.7
   \<and> remixLine_legacy (clampStrength 0.7) =
        ''Creative remix reinterpretation, allow recomposition and scale shifts.''
   \<and> remixLine (clampStrength 0.7) =
        ''Creative remix reinterpretation; allow recomposition, scale shifts, and fused elements.''"
proof -
  have c: "clampStrength 0.7 = 0.7"
    by (simp add: clampStrength_def)
  from strength_tier_boundaries[of "0.7"] show ?thesis
    by (simp add: c)
qed

section \<open>Anchor Extractor\<close>

lemma truthy_trim: "truthy (trim s) \<Longrightarrow> truthy s"
  by (cases s) (simp_all add: truthy_def trim_Nil)

lemma noBlank_append: "noBlank (xs @ ys) \<longleftrightarrow> noBlank xs \<and> noBlank ys"
  by (simp add: noBlank_def)

lemma noBlank_take: "noBlank xs \<Longrightarrow> noBlank (take n xs)"
  by (auto simp: noBlank_def list_all_iff dest: in_set_takeD)

lemma firstIfTruthy_take: "noBlank arr \<Longrightarrow> firstIfTruthy arr = take 1 arr"
  by (cases arr) (auto simp: firstIfTruthy_def noBlank_def dest: truthy_trim)

lemma trimmedEntries_noBlank: "noBlank xs \<Longrightarrow> trimmedEntries xs = map trim xs"
  by (induction xs) (simp_all add: trimmedEntries_def noBlank_def)

lemma filter_truthy_noBlank: "noBlank xs \<Longrightarrow> filter truthy xs = xs"
  by (induction xs) (auto simp: noBlank_def dest: truthy_trim)

lemma uniq_noBlank: "noBlank xs \<Longrightarrow> uniq xs = firstSeen (map trim xs)"
  by (simp add: uniq_def arrayFromSet_firstSeen trimmedEntries_noBlank[unfolded trimmedEntries_def])

lemma uniq_legacy_noBlank: "noBlank xs \<Longrightarrow> uniq_legacy xs = firstSeen (map trim xs)"
  by (simp add: uniq_legacy_def arrayFromSet_firstSeen filter_truthy_noBlank)

lemma filter_image_absent:
  "filter (\<lambda>z. z \<notin> f ` set acc) (map f (filter (\<lambda>y. y \<notin> set acc) new)) =
   filter (\<lambda>z. z \<notin> f ` set acc) (map f new)"
  by (induction new) auto

lemma set_appendAbsent: "set (appendAbsent acc new) = set acc \<union> set new"
  by (auto simp: appendAbsent_def)

lemma firstSeen_map_appendAbsent:
  assumes "set a = set b" and "firstSeen (map f a) = firstSeen (map f b)"
  shows "firstSeen (map f (appendAbsent a new)) = firstSeen (map f (b @ new))"
proof -
  have "firstSeen (map f (appendAbsent a new)) =
        firstSeen (map f a) @
        firstSeen (filter (\<lambda>z. z \<notin> f ` set a) (map f (filter (\<lambda>y. y \<notin> set a) new)))"
    by (simp add: appendAbsent_def firstSeen_append)
  also have "\<dots> = firstSeen (map f a) @ firstSeen (filter (\<lambda>z. z \<notin> f ` set a) (map f new))"
    by (simp only: filter_image_absent)
  also have "\<dots> = firstSeen (map f b) @ firstSeen (filter (\<lambda>z. z \<notin> f ` set b) (map f new))"
    using assms by simp
  also have "\<dots> = firstSeen (map f (b @ new))"
    by (simp add: firstSeen_append)
  finally show ?thesis .
qed

lemma extractAnchors_spec_flat:
  "extractAnchors_spec mustKeep objects vibe persons =
   take 10 (firstSeen (map trim (mustKeep @ take 5 objects @ take 1 vibe @ take 1 persons)))"
proof -
  let ?s2 = "appendAbsent mustKeep (take 5 objects)"
  let ?s3 = "appendAbsent ?s2 (take 1 vibe)"
  have s2: "firstSeen (map trim ?s2) = firstSeen (map trim (mustKeep @ take 5 objects))"
    by (rule firstSeen_map_appendAbsent) simp_all
  have set2: "set ?s2 = set (mustKeep @ take 5 objects)"
    by (simp add: set_appendAbsent)
  have s3: "firstSeen (map trim ?s3) =
            firstSeen (map trim ((mustKeep @ take 5 objects) @ take 1 vibe))"
    using set2 s2 by (rule firstSeen_map_appendAbsent)
  have set3: "set ?s3 = set ((mustKeep @ take 5 objects) @ take 1 vibe)"
    by (auto simp: set_appendAbsent)
  have "firstSeen (map trim (appendAbsent ?s3 (take 1 persons))) =
        firstSeen (map trim (((mustKeep @ take 5 objects) @ take 1 vibe) @ take 1 persons))"
    using set3 s3 by (rule firstSeen_map_appendAbsent)
  then show ?thesis
    by (simp add: extractAnchors_spec_def Let_def)
qed

lemma anchorCandidates_noBlank:
  assumes "noBlank (arrayField d d_must_keep)" and "noBlank (arrayField d d_objects)"
    and "noBlank (arrayField d d_vibe)" and "noBlank (arrayField d d_people)"
  shows "anchorCandidates d =
           arrayField d d_must_keep @ take 5 (arrayField d d_objects) @
           take 1 (arrayField d d_vibe) @ take 1 (arrayField d d_people)"
    and "noBlank (anchorCandidates d)"
proof -
  show c: "anchorCandidates d =
           arrayField d d_must_keep @ take 5 (arrayField d d_objects) @
           take 1 (arrayField d d_vibe) @ take 1 (arrayField d d_people)"
    using assms by (simp add: anchorCandidates_def Let_def firstIfTruthy_take)
  show "noBlank (anchorCandidates d)"
    using assms by (simp only: c noBlank_append noBlank_take simp_thms)
qed

text \<open>
  C2. For every descriptor whose list fields hold no empty or white-space-only entry
  (the invariant of an ImageDescriptor), \<open>buildAnchors\<close>, in the current and in the
  legacy route, returns what the Anchor Extractor of the specification does: all of
  mustKeep in order, then the entries among the first 5 of objects that are not
  already present, then the first entry of vibe and the first entry of people if there
  is one and it is not already present, deduplicated case-sensitively by trimmed value
  in first-seen order and cut to at most 10 entries. On mustKeep = ["lamp"],
  objects = ["a","b","c","d","e","f"], vibe = ["moody"], people = [] it yields
  ["lamp","a","b","c","d","e","moody"].
\<close>

theorem buildAnchors_is_anchor_extractor:
  assumes "noBlank (arrayField d d_must_keep)" and "noBlank (arrayField d d_objects)"
    and "noBlank (arrayField d d_vibe)" and "noBlank (arrayField d d_people)"
  shows "buildAnchors d =
           extractAnchors_spec (arrayField d d_must_keep) (arrayField d d_objects)
             (arrayField d d_vibe) (arrayField d d_people)
         \<and> buildAnchors_legacy d = buildAnchors d
         \<and> length (buildAnchors d) \<le> 10
         \<and> buildAnchors (Some lampDescriptor) =
             [''lamp'', ''a'', ''b'', ''c'', ''d'', ''e'', ''moody'']"
proof (intro conjI)
  note cand = anchorCandidates_noBlank[OF assms]
  show spec: "buildAnchors d =
           extractAnchors_spec (arrayField d d_must_keep) (arrayField d d_objects)
             (arrayField d d_vibe) (arrayField d d_people)"
  proof -
    have "buildAnchors d = take 10 (firstSeen (map trim (anchorCandidates d)))"
      by (simp only: buildAnchors_def uniq_noBlank[OF cand(2)])
    then show ?thesis
      by (simp only: cand(1) extractAnchors_spec_flat)
  qed
  show "buildAnchors_legacy d = buildAnchors d"
    by (simp only: buildAnchors_def buildAnchors_legacy_def uniq_noBlank[OF cand(2)]
          uniq_legacy_noBlank[OF cand(2)])
  show "length (buildAnchors d) \<le> 10"
    by (simp add: buildAnchors_def)
  show "buildAnchors (Some lampDescriptor) =
             [''lamp'', ''a'', ''b'', ''c'', ''d'', ''e'', ''moody'']"
    by code_simp
qed

theorem buildAnchors_is_anchor_extractor_witness:
  "noBlank (arrayField (Some lampDescriptor) d_must_keep)
   \<and> noBlank (arrayField (Some lampDescriptor) d_objects)
   \<and> noBlank (arrayField (Some lampDescriptor) d_vibe)
   \<and> noBlank (arrayField (Some lampDescriptor) d_people)
   \<and> extractAnchors_spec [''lamp''] [''a'', ''b'', ''c'', ''d'', ''e'', ''f''] [''moody''] [] =
       [''lamp'', ''a'', ''b'', ''c'', ''d'', ''e'', ''moody'']
   \<and> buildAnchors_legacy (Some lampDescriptor) =
       [''lamp'', ''a'', ''b'', ''c'', ''d'', ''e'', ''moody'']"
proof -
  have m: "arrayField (Some lampDescriptor) d_must_keep = [''lamp'']"
    and ob: "arrayField (Some lampDescriptor) d_objects = [''a'', ''b'', ''c'', ''d'', ''e'', ''f'']"
    and v: "arrayField (Some lampDescriptor) d_vibe = [''moody'']"
    and p: "arrayField (Some lampDescriptor) d_people = []"
    by (simp_all add: arrayField_def lampDescriptor_def emptyDescriptor_def)
  have h1: "noBlank (arrayField (Some lampDescriptor) d_must_keep)"
    unfolding m by code_simp
  have h2: "noBlank (arrayField (Some lampDescriptor) d_objects)"
    unfolding ob by code_simp
  have h3: "noBlank (arrayField (Some lampDescriptor) d_vibe)"
    unfolding v by code_simp
  have h4: "noBlank (arrayField (Some lampDescriptor) d_people)"
    unfolding p by code_simp
  note inst = buildAnchors_is_anchor_extractor[OF h1 h2 h3 h4]
  have a: "buildAnchors (Some lampDescriptor) =
           extractAnchors_spec [''lamp''] [''a'', ''b'', ''c'', ''d'', ''e'', ''f''] [''moody''] []"
    using inst by (simp only: m ob v p)
  have b: "buildAnchors_legacy (Some lampDescriptor) = buildAnchors (Some lampDescriptor)"
    using inst by (elim conjE)
  have c: "buildAnchors (Some lampDescriptor) =
           [''lamp'', ''a'', ''b'', ''c'', ''d'', ''e'', ''moody'']"
    using inst by (elim conjE)
  from h1 h2 h3 h4 a b c show ?thesis
    by (simp only: simp_thms)
qed

section \<open>Field Resolver\<close>

lemma pick_result:
  "pick obj keys = Null \<or>
   (trim (toString (pick obj keys)) \<noteq> [] \<and> (\<exists>k \<in> set keys. obj k = Some (pick obj keys)))"
  by (induction keys) (auto split: option.splits)

lemma resolve_result:
  "resolve lookups = Null \<or>
   (trim (toString (resolve lookups)) \<noteq> []
    \<and> (\<exists>(obj, keys) \<in> set lookups. \<exists>k \<in> set keys. obj k = Some (resolve lookups)))"
proof (induction lookups)
  case Nil
  then show ?case by simp
next
  case (Cons a lookups)
  obtain obj keys where a: "a = (obj, keys)" by (cases a)
  show ?case
  proof (cases "pick obj keys = Null")
    case True
    then have "resolve (a # lookups) = resolve lookups"
      by (simp add: a)
    with Cons.IH show ?thesis by auto
  next
    case False
    then have "resolve (a # lookups) = pick obj keys"
      by (simp add: a split: RawValue.splits)
    with False pick_result[of obj keys] show ?thesis
      by (auto simp: a)
  qed
qed

text \<open>
  C3, as stated, fails: \<open>pick\<close> tests the trimmed string and returns the stored value
  itself, so a value with surrounding white space comes back untrimmed.
\<close>

theorem pick_untrimmed_counterexample:
  "pick [''caption'' \<mapsto> Str '' hi ''] [''caption''] = Str '' hi ''
   \<and> trim '' hi '' \<noteq> '' hi ''"
  by code_simp

text \<open>
  C3, amended. For every ordered list of metadata containers and every ordered list of
  candidate keys, the Field Resolver returns either absent (\<open>null\<close>) or a value stored
  under one of the candidate keys whose string form is not empty after trimming: it
  never returns an empty or white-space-only string. The value is returned as stored,
  not trimmed.
\<close>

theorem field_resolver_result:
  "(pick obj keys = Null \<or>
      (trim (toString (pick obj keys)) \<noteq> []
       \<and> (\<exists>k \<in> set keys. obj k = Some (pick obj keys))))
   \<and> (resolve lookups = Null \<or>
      (trim (toString (resolve lookups)) \<noteq> []
       \<and> (\<exists>(c, ks) \<in> set lookups. \<exists>k \<in> set ks. c k = Some (resolve lookups))))"
  using pick_result resolve_result by blast

theorem field_resolver_result_witness:
  "resolve [([''caption'' \<mapsto> Str ''  ''], [''caption'', ''Caption'']),
            ([''caption'' \<mapsto> Str '' hi ''], [''caption''])] = Str '' hi ''
   \<and> trim (toString (Str '' hi '')) \<noteq> []"
proof -
  have r: "resolve [([''caption'' \<mapsto> Str ''  ''], [''caption'', ''Caption'']),
            ([''caption'' \<mapsto> Str '' hi ''], [''caption''])] = Str '' hi ''"
    by code_simp
  from field_resolver_result[of Map.empty "[]"
      "[([''caption'' \<mapsto> Str ''  ''], [''caption'', ''Caption'']),
        ([''caption'' \<mapsto> Str '' hi ''], [''caption''])]"] r
  show ?thesis by simp
qed

section \<open>List Coercion\<close>

lemma csvToArr_entries: "e \<in> set (csvToArr parseArray v) \<Longrightarrow> e \<noteq> [] \<and> trim e = e"
  by (auto simp: csvToArr_def Let_def dest: trimmedEntries_trimmed
           split: if_splits RawValue.splits option.splits)

lemma csvToArr_of_joined:
  assumes entries: "\<forall>e \<in> set xs. e \<noteq> [] \<and> trim e = e"
    and commas: "\<forall>e \<in> set xs. CHR '','' \<notin> set e"
    and json: "bracketed (joinWith '','' xs) \<longrightarrow> parseArray (joinWith '','' xs) = None"
  shows "csvToArr parseArray (Str (joinWith '','' xs)) = xs"
proof (cases "xs = []")
  case True
  then show ?thesis by (simp add: csvToArr_def falsy_def)
next
  case False
  let ?j = "joinWith '','' xs"
  have ne: "?j \<noteq> []"
    using joinWith_Nil_iff[of xs "'',''"] entries False by blast
  have t: "trim ?j = ?j"
    using False entries by (rule trim_joinWith)
  have p: "(if bracketed ?j then parseArray ?j else None) = None"
    using json by simp
  have "csvToArr parseArray (Str ?j) = trimmedEntries (splitOn CHR '','' ?j)"
    using ne by (simp add: csvToArr_def falsy_def t truthy_def p)
  also have "\<dots> = trimmedEntries xs"
    using False commas by (simp add: splitOn_joinWith)
  also have "\<dots> = xs"
    using entries by (rule trimmedEntries_fixed)
  finally show ?thesis .
qed

text \<open>
  C4, as stated, fails: an entry that holds a comma is split when the joined string is
  coerced again.
\<close>

theorem csvToArr_comma_counterexample:
  "csvToArr parseNothing (Arr [''a,b'']) = [''a,b'']
   \<and> csvToArr parseNothing (Str (joinWith '','' (csvToArr parseNothing (Arr [''a,b''])))) =
       [''a'', ''b'']"
  by code_simp

text \<open>
  C4, amended. For every input whose coerced entries hold no comma and whose
  comma-joined rendering is not a bracket-delimited string that \<open>JSON.parse\<close> accepts as
  an array, coercing the comma-joined rendering of the coerced list yields the same
  list.
\<close>

theorem csvToArr_idempotent:
  assumes "\<forall>e \<in> set (csvToArr parseArray v). CHR '','' \<notin> set e"
    and "bracketed (joinWith '','' (csvToArr parseArray v)) \<longrightarrow>
         parseArray (joinWith '','' (csvToArr parseArray v)) = None"
  shows "csvToArr parseArray (Str (joinWith '','' (csvToArr parseArray v))) =
         csvToArr parseArray v"
  using csvToArr_entries assms by (intro csvToArr_of_joined) blast+

theorem csvToArr_idempotent_witness:
  "csvToArr parseNothing (Str ''a, b, ,c'') = [''a'', ''b'', ''c'']
   \<and> csvToArr parseNothing (Str ''a,b,c'') = [''a'', ''b'', ''c'']"
proof -
  have c: "csvToArr parseNothing (Str ''a, b, ,c'') = [''a'', ''b'', ''c'']"
    by code_simp
  have commas: "\<forall>e \<in> set (csvToArr parseNothing (Str ''a, b, ,c'')). CHR '','' \<notin> set e"
    by (simp add: c)
  have json: "bracketed (joinWith '','' (csvToArr parseNothing (Str ''a, b, ,c''))) \<longrightarrow>
              parseNothing (joinWith '','' (csvToArr parseNothing (Str ''a, b, ,c''))) = None"
    by (simp add: parseNothing_def)
  from csvToArr_idempotent[OF commas json] show ?thesis
    by (simp add: c)
qed

section \<open>Plans that violate the schema\<close>








section \<open>Requests with too few parents\<close>

lemma POST_rejects:
  "fewerThanTwo (parents req) \<Longrightarrow> POST w req = (Status400 ''Provide at least 2 parents.'', [])"
  by (auto simp: POST_def fewerThanTwo_def split: option.splits)

lemma POST_legacy_rejects:
  "length (normalizedParents req) < 2 \<Longrightarrow>
   POST_legacy w req = (Status400 ''Provide at least 2 parents.'', [])"
  by (simp add: POST_legacy_def Let_def)

lemma POST_legacy_proceeds:
  "\<not> length (normalizedParents req) < 2 \<Longrightarrow>
   (\<exists>msg calls. POST_legacy w req = (Status500 msg, calls) \<and> calls \<noteq> [])
   \<or> (\<exists>body calls. POST_legacy w req = (Status200 body, calls) \<and> calls \<noteq> [])"
  by (auto simp: POST_legacy_def Let_def split: option.splits)

lemma normalizedParents_fabricated:
  "fewerThanTwo (parents req) \<Longrightarrow>
   normalizedParents req = map (fabricate (parentIds req)) (enumerate 0 (descriptions req))"
  by (auto simp: normalizedParents_def fewerThanTwo_def split: option.splits)

text \<open>
  C6, as stated, fails on the legacy route: a request with one parent and two
  descriptions is not answered 400, and the plan call is made.
\<close>

theorem POST_legacy_one_parent_counterexample:
  "parents (legacyRequestOf [parentA] [''x'', ''y'']) = Some [parentA]
   \<and> POST_legacy (answeringWorld_legacy\<lparr>l_chatCompletion := (\<lambda>p. None)\<rparr>)
        (legacyRequestOf [parentA] [''x'', ''y'']) =
       (Status500 ''Failed to generate content'', [ChatCompletion])"
  by code_simp

text \<open>
  C6, amended. The current route answers every request whose parents list has fewer
  than 2 entries with the client error 400 "Provide at least 2 parents.", and has
  started no external call by then. The legacy route answers so, with no external call,
  every request whose normalized parents list has fewer than 2 entries.
\<close>

theorem too_few_parents_rejected:
  "(fewerThanTwo (parents req) \<longrightarrow>
      POST w req = (Status400 ''Provide at least 2 parents.'', []))
   \<and> (length (normalizedParents lreq) < 2 \<longrightarrow>
      POST_legacy lw lreq = (Status400 ''Provide at least 2 parents.'', []))"
  using POST_rejects POST_legacy_rejects by blast

theorem too_few_parents_rejected_witness:
  "fewerThanTwo (parents (requestOf [parentA]))
   \<and> POST answeringWorld (requestOf [parentA]) = (Status400 ''Provide at least 2 parents.'', [])
   \<and> length (normalizedParents (legacyRequestOf [parentA] [''x''])) < 2
   \<and> POST_legacy answeringWorld_legacy (legacyRequestOf [parentA] [''x'']) =
       (Status400 ''Provide at least 2 parents.'', [])"
proof -
  have few: "fewerThanTwo (parents (requestOf [parentA]))"
    by (simp add: fewerThanTwo_def requestOf_def)
  have short: "length (normalizedParents (legacyRequestOf [parentA] [''x''])) < 2"
    by (simp add: normalizedParents_def legacyRequestOf_def)
  from too_few_parents_rejected[of "requestOf [parentA]" answeringWorld
      "legacyRequestOf [parentA] [''x'']" answeringWorld_legacy] few short
  show ?thesis by simp
qed

text \<open>
  C10. In the legacy route, when the request's parents list has fewer than 2 entries the
  normalized list has one fabricated parent per entry of \<open>descriptions\<close>, its url the
  entry of \<open>parentIds\<close> at the same position (empty when there is none) and its
  descriptor holding the description only. The rejection "Provide at least 2 parents."
  is answered if and only if the normalized list has fewer than 2 entries, so a request
  with 0 or 1 parents and 2 or more descriptions is not rejected.
\<close>

theorem legacy_rejection_on_normalized_parents:
  "(fewerThanTwo (parents req) \<longrightarrow>
      length (normalizedParents req) = length (descriptions req)
      \<and> (\<forall>i < length (descriptions req).
            p_url (normalizedParents req ! i) =
              (if i < length (parentIds req) then parentIds req ! i else [])
            \<and> p_descriptor (normalizedParents req ! i) =
              Some (emptyDescriptor\<lparr>d_description := Some (descriptions req ! i)\<rparr>)))
   \<and> (fst (POST_legacy w req) = Status400 ''Provide at least 2 parents.''
        \<longleftrightarrow> length (normalizedParents req) < 2)
   \<and> (fewerThanTwo (parents req) \<and> 2 \<le> length (descriptions req) \<longrightarrow>
        fst (POST_legacy w req) \<noteq> Status400 ''Provide at least 2 parents.'')"
proof (intro conjI impI)
  assume few: "fewerThanTwo (parents req)"
  show "length (normalizedParents req) = length (descriptions req)"
    by (simp add: normalizedParents_fabricated[OF few])
  show "\<forall>i < length (descriptions req).
            p_url (normalizedParents req ! i) =
              (if i < length (parentIds req) then parentIds req ! i else [])
            \<and> p_descriptor (normalizedParents req ! i) =
              Some (emptyDescriptor\<lparr>d_description := Some (descriptions req ! i)\<rparr>)"
    by (simp add: normalizedParents_fabricated[OF few] nth_enumerate_eq fabricate_def)
next
  show iff: "fst (POST_legacy w req) = Status400 ''Provide at least 2 parents.''
        \<longleftrightarrow> length (normalizedParents req) < 2"
  proof
    assume "length (normalizedParents req) < 2"
    then show "fst (POST_legacy w req) = Status400 ''Provide at least 2 parents.''"
      by (simp add: POST_legacy_rejects)
  next
    assume rejected: "fst (POST_legacy w req) = Status400 ''Provide at least 2 parents.''"
    show "length (normalizedParents req) < 2"
    proof (rule ccontr)
      assume "\<not> length (normalizedParents req) < 2"
      from POST_legacy_proceeds[OF this, of w] rejected show False
        by auto
    qed
  qed
  assume "fewerThanTwo (parents req) \<and> 2 \<le> length (descriptions req)"
  then have "\<not> length (normalizedParents req) < 2"
    by (simp add: normalizedParents_fabricated)
  with iff show "fst (POST_legacy w req) \<noteq> Status400 ''Provide at least 2 parents.''"
    by simp
qed

theorem legacy_rejection_on_normalized_parents_witness:
  "fewerThanTwo (parents (legacyRequestOf [parentA] [''x'', ''y'']))
   \<and> 2 \<le> length (descriptions (legacyRequestOf [parentA] [''x'', ''y'']))
   \<and> map p_url (normalizedParents (legacyRequestOf [parentA] [''x'', ''y''])) = [''id-1'', []]
   \<and> fst (POST_legacy answeringWorld_legacy (legacyRequestOf [parentA] [''x'', ''y''])) \<noteq>
       Status400 ''Provide at least 2 parents.''"
proof -
  have few: "fewerThanTwo (parents (legacyRequestOf [parentA] [''x'', ''y'']))"
    by (simp add: fewerThanTwo_def legacyRequestOf_def)
  have two: "2 \<le> length (descriptions (legacyRequestOf [parentA] [''x'', ''y'']))"
    by (simp add: legacyRequestOf_def)
  have urls: "map p_url (normalizedParents (legacyRequestOf [parentA] [''x'', ''y''])) =
              [''id-1'', []]"
    by code_simp
  from legacy_rejection_on_normalized_parents[of "legacyRequestOf [parentA] [''x'', ''y'']"
      answeringWorld_legacy] few two urls
  show ?thesis by blast
qed

section \<open>Deduplication in the "must include" clause\<close>

lemma uniq_firstSeen: "uniq arr = firstSeen (trimmedEntries arr)"
  by (simp add: uniq_def arrayFromSet_firstSeen trimmedEntries_def)

text \<open>
  C7, as stated, fails: the clause is rendered over \<open>uniq\<close>, whose Set compares the
  trimmed strings exactly, so "Cat" and "cat" both stay, where the Tag Merger's
  \<open>dedupLower\<close> keeps "Cat" only.
\<close>

theorem must_include_case_counterexample:
  "uniq [''Cat'', ''cat''] = [''Cat'', ''cat'']
   \<and> dedupLower [''Cat'', ''cat''] = [''Cat'']
   \<and> mustIncludeClause [''Cat'', ''cat''] = ''Must include (integrated naturally): Cat, cat.''"
  by code_simp

text \<open>
  C7, amended. The deduplication applied to the "must include" clause of the rendered
  prompt trims the entries, drops the empty ones and keeps the first occurrence of each
  trimmed value, compared exactly (case-sensitively). It gives the Tag Merger's result
  whenever no two different trimmed entries are equal up to case.
\<close>

theorem must_include_dedup:
  "uniq must_include = firstSeen (trimmedEntries must_include)
   \<and> mustIncludeClause must_include =
       ''Must include (integrated naturally): '' @
       joinWith '', '' (firstSeen (trimmedEntries must_include)) @ ''.''
   \<and> (inj_on toLowerCase (set (trimmedEntries must_include)) \<longrightarrow>
        uniq must_include = dedupLower must_include)"
proof (intro conjI impI)
  show "uniq must_include = firstSeen (trimmedEntries must_include)"
    by (rule uniq_firstSeen)
  show "mustIncludeClause must_include =
       ''Must include (integrated naturally): '' @
       joinWith '', '' (firstSeen (trimmedEntries must_include)) @ ''.''"
    by (simp only: mustIncludeClause_def uniq_firstSeen)
  assume "inj_on toLowerCase (set (trimmedEntries must_include))"
  then show "uniq must_include = dedupLower must_include"
    by (simp only: uniq_firstSeen dedupLower_firstByLower firstByLower_firstSeen)
qed

theorem must_include_dedup_witness:
  "inj_on toLowerCase (set (trimmedEntries ['' lamp'', ''Cat'', ''lamp '', []]))
   \<and> uniq ['' lamp'', ''Cat'', ''lamp '', []] = [''lamp'', ''Cat'']
   \<and> dedupLower ['' lamp'', ''Cat'', ''lamp '', []] = [''lamp'', ''Cat'']"
proof -
  have entries: "trimmedEntries ['' lamp'', ''Cat'', ''lamp '', []] = [''lamp'', ''Cat'', ''lamp'']"
    by code_simp
  have lower: "toLowerCase ''lamp'' \<noteq> toLowerCase ''Cat''"
    by code_simp
  have inj: "inj_on toLowerCase (set (trimmedEntries ['' lamp'', ''Cat'', ''lamp '', []]))"
    using lower by (auto simp: entries inj_on_def)
  have tags: "dedupLower ['' lamp'', ''Cat'', ''lamp '', []] = [''lamp'', ''Cat'']"
    by code_simp
  from must_include_dedup[of "['' lamp'', ''Cat'', ''lamp '', []]"] inj
  have "uniq ['' lamp'', ''Cat'', ''lamp '', []] = dedupLower ['' lamp'', ''Cat'', ''lamp '', []]"
    by (elim conjE) (rule mp)
  with inj tags show ?thesis
    by (simp only: simp_thms)
qed

section \<open>Tag Merger\<close>

text \<open>
  C8. For every list of tag lists and every cap, the merge the upload route performs
  (\<open>dedupLower\<close> over the concatenation, then \<open>slice(0, cap)\<close>) is the Tag Merger
  of the specification: the lists concatenated in argument order, every entry trimmed,
  empty entries dropped, one entry kept per lower-cased value in its first-seen casing,
  and the result cut to the cap with the order kept. The route calls it on five lists with
  cap 40, and on \<open>[["Cat","cat","Dog"],["dog","Bird"]]\<close> the result is
  \<open>["Cat","Dog","Bird"]\<close>.
\<close>

theorem mergedTags_is_tag_merger:
  "take cap (dedupLower (concat tagLists)) = mergeTags_spec tagLists cap
   \<and> mergedTags ai_tags ai_vibe ai_objects ai_must_keep tags =
       mergeTags_spec [ai_tags, ai_vibe, ai_objects, ai_must_keep, userTags tags] 40
   \<and> mergedTags [''Cat'', ''cat'', ''Dog''] [''dog'', ''Bird''] [] [] [] =
       [''Cat'', ''Dog'', ''Bird'']"
proof (intro conjI)
  show "take cap (dedupLower (concat tagLists)) = mergeTags_spec tagLists cap"
    by (simp add: mergeTags_spec_def dedupLower_firstByLower trimmedEntries_def)
  show "mergedTags ai_tags ai_vibe ai_objects ai_must_keep tags =
        mergeTags_spec [ai_tags, ai_vibe, ai_objects, ai_must_keep, userTags tags] 40"
    by (simp add: mergedTags_def mergeTags_spec_def dedupLower_firstByLower trimmedEntries_def)
  show "mergedTags [''Cat'', ''cat'', ''Dog''] [''dog'', ''Bird''] [] [] [] =
        [''Cat'', ''Dog'', ''Bird'']"
    by code_simp
qed

theorem mergedTags_is_tag_merger_witness:
  "take 2 (dedupLower (concat [['' a '', ''A''], [''b'', [], ''c'']])) = [''a'', ''b'']
   \<and> mergeTags_spec [['' a '', ''A''], [''b'', [], ''c'']] 2 = [''a'', ''b'']"
proof -
  have spec: "mergeTags_spec [['' a '', ''A''], [''b'', [], ''c'']] 2 = [''a'', ''b'']"
    by code_simp
  from mergedTags_is_tag_merger[of 2 "[['' a '', ''A''], [''b'', [], ''c'']]"] spec
  show ?thesis by simp
qed

section \<open>Parents considered by the plan synthesis\<close>

lemma number_from_one: "map (\<lambda>ip. fst ip + 1) (enumerate 0 xs) = [1..<Suc (length xs)]"
proof -
  have "map (\<lambda>ip. fst ip + 1) (enumerate 0 xs) = map (Suc \<circ> fst) (enumerate 0 xs)"
    by simp
  also have "\<dots> = map Suc (map fst (enumerate 0 xs))"
    by (simp only: map_map)
  also have "\<dots> = map Suc [0..<length xs]"
    by simp
  also have "\<dots> = [1..<Suc (length xs)]"
    by (simp only: map_Suc_upt) simp
  finally show ?thesis .
qed

lemma map_comp_snd_enumerate: "map (f \<circ> snd) (enumerate n xs) = map f xs"
proof -
  have "map (f \<circ> snd) (enumerate n xs) = map f (map snd (enumerate n xs))"
    by (simp only: map_map)
  then show ?thesis
    by (simp only: map_snd_enumerate)
qed

lemma s_url_summarize: "s_url (summarize ip) = p_url (snd ip)"
  by (simp add: summarize_def Let_def)

lemma s_index_summarize: "s_index (summarize ip) = fst ip + 1"
  by (simp add: summarize_def Let_def)

lemma ls_description_summarize:
  "ls_description (summarize_legacy ip) = orEmpty (d_description (descriptorOf (snd ip)))"
  by (simp add: summarize_legacy_def Let_def)

lemma ls_index_summarize: "ls_index (summarize_legacy ip) = fst ip + 1"
  by (simp add: summarize_legacy_def Let_def)

text \<open>
  C9, as stated, fails on the legacy route: it summarises the first ten parents only,
  so of eleven parents the eleventh is dropped and of sixteen only ten are considered.
\<close>

theorem parentSummaries_legacy_counterexample:
  "length (parentSummaries_legacy (replicate 11 parentB)) = 10
   \<and> length (parentSummaries_legacy (replicate 16 parentB)) \<noteq> 16"
  by (simp add: parentSummaries_legacy_def)

text \<open>
  C9, amended. The plan synthesis of the current route considers the first 16 parents
  and that of the legacy route the first 10, in the original order (numbered from 1);
  the parents beyond are dropped, and the summaries are those of the kept prefix.
\<close>

theorem parents_considered:
  "parentSummaries ps = parentSummaries (take 16 ps)
   \<and> length (parentSummaries ps) = min 16 (length ps)
   \<and> map s_url (parentSummaries ps) = map p_url (take 16 ps)
   \<and> map s_index (parentSummaries ps) = [1..<Suc (min 16 (length ps))]
   \<and> parentSummaries_legacy ps = parentSummaries_legacy (take 10 ps)
   \<and> length (parentSummaries_legacy ps) = min 10 (length ps)
   \<and> map ls_description (parentSummaries_legacy ps) =
       map (\<lambda>p. orEmpty (d_description (descriptorOf p))) (take 10 ps)
   \<and> map ls_index (parentSummaries_legacy ps) = [1..<Suc (min 10 (length ps))]"
proof (intro conjI)
  show "parentSummaries ps = parentSummaries (take 16 ps)"
    by (simp add: parentSummaries_def)
  show "length (parentSummaries ps) = min 16 (length ps)"
    by (simp add: parentSummaries_def min.commute)
  have "s_url \<circ> summarize = p_url \<circ> snd"
    by (rule ext) (simp add: s_url_summarize)
  then have "map s_url (parentSummaries ps) = map (p_url \<circ> snd) (enumerate 0 (take 16 ps))"
    by (simp add: parentSummaries_def)
  then show "map s_url (parentSummaries ps) = map p_url (take 16 ps)"
    by (simp only: map_comp_snd_enumerate)
  have "s_index \<circ> summarize = (\<lambda>ip. fst ip + 1)"
    by (rule ext) (simp add: s_index_summarize)
  then have "map s_index (parentSummaries ps) = map (\<lambda>ip. fst ip + 1) (enumerate 0 (take 16 ps))"
    by (simp add: parentSummaries_def)
  then show "map s_index (parentSummaries ps) = [1..<Suc (min 16 (length ps))]"
    by (simp only: number_from_one) (simp add: min.commute)
  show "parentSummaries_legacy ps = parentSummaries_legacy (take 10 ps)"
    by (simp add: parentSummaries_legacy_def)
  show "length (parentSummaries_legacy ps) = min 10 (length ps)"
    by (simp add: parentSummaries_legacy_def min.commute)
  have "ls_description \<circ> summarize_legacy = (\<lambda>p. orEmpty (d_description (descriptorOf p))) \<circ> snd"
    by (rule ext) (simp add: ls_description_summarize)
  then have "map ls_description (parentSummaries_legacy ps) =
        map ((\<lambda>p. orEmpty (d_description (descriptorOf p))) \<circ> snd) (enumerate 0 (take 10 ps))"
    by (simp add: parentSummaries_legacy_def)
  then show "map ls_description (parentSummaries_legacy ps) =
        map (\<lambda>p. orEmpty (d_description (descriptorOf p))) (take 10 ps)"
    by (simp only: map_comp_snd_enumerate)
  have "ls_index \<circ> summarize_legacy = (\<lambda>ip. fst ip + 1)"
    by (rule ext) (simp add: ls_index_summarize)
  then have "map ls_index (parentSummaries_legacy ps) =
        map (\<lambda>ip. fst ip + 1) (enumerate 0 (take 10 ps))"
    by (simp add: parentSummaries_legacy_def)
  then show "map ls_index (parentSummaries_legacy ps) = [1..<Suc (min 10 (length ps))]"
    by (simp only: number_from_one) (simp add: min.commute)
qed

theorem parents_considered_witness:
  "map s_url (parentSummaries (replicate 17 parentA @ [parentB])) =
     replicate 16 ''https://img/a.png''
   \<and> length (parentSummaries_legacy (replicate 17 parentA @ [parentB])) = 10"
proof -
  note inst = parents_considered[of "replicate 17 parentA @ [parentB]"]
  have u: "map p_url (take 16 (replicate 17 parentA @ [parentB])) =
           replicate 16 ''https://img/a.png''"
    by (simp add: parentA_def)
  have "map s_url (parentSummaries (replicate 17 parentA @ [parentB])) =
        map p_url (take 16 (replicate 17 parentA @ [parentB]))"
    using inst by (elim conjE)
  moreover have "length (parentSummaries_legacy (replicate 17 parentA @ [parentB])) =
        min 10 (length (replicate 17 parentA @ [parentB]))"
    using inst by (elim conjE)
  ultimately show ?thesis
    by (simp only: u) simp
qed

end
